theory Spec2Isabelle
  imports Complex_Main "HOL-Library.Code_Target_Numeral"
begin

section \<open>Group dynamics engine\<close>

text \<open>
  The product specification gives the two group-dynamics functions as Python:
  \<^verbatim>\<open>
  def calculate_conformity_pressure(persona, group_sentiment):
      agreement_ratio = count_agreeing(group_sentiment) / total_speakers
      pressure = agreement_ratio * persona.agreeableness * CONFORMITY_WEIGHT
      resistance = persona.conviction * (1 - persona.agreeableness)
      return max(0, pressure - resistance)

  def calculate_influence(persona, group_state):
      influence = (persona.extraversion * 0.4 + persona.perceived_expertise * 0.4
                   + persona.speak_count_ratio * 0.2)
      return influence
  \<close>
  Python floats are read as real numbers. The attributes the two functions read from a
  persona are the fields of the record below; they are used as they are, with no
  normalisation inside the functions.
\<close>

record persona =
  persona_id :: string
  name :: string
  extraversion :: real
  agreeableness :: real
  conviction :: real
  perceived_expertise :: real
  speak_count_ratio :: real

datatype py_error = ZeroDivisionError

text \<open>
  \<open>CONFORMITY_WEIGHT\<close>, \<open>count_agreeing\<close> and \<open>total_speakers\<close> are names the function
  uses and the sources do not define: they are parameters here. Python's \<open>/\<close> raises
  \<open>ZeroDivisionError\<close> on a zero divisor.
\<close>

definition calculate_conformity_pressure ::
  "real \<Rightarrow> ('g \<Rightarrow> nat) \<Rightarrow> nat \<Rightarrow> persona \<Rightarrow> 'g \<Rightarrow> py_error + real" where
  "calculate_conformity_pressure CONFORMITY_WEIGHT count_agreeing total_speakers p group_sentiment =
     (if total_speakers = 0 then Inl ZeroDivisionError
      else
        let agreement_ratio = real (count_agreeing group_sentiment) / real total_speakers;
            pressure = agreement_ratio * agreeableness p * CONFORMITY_WEIGHT;
            resistance = conviction p * (1 - agreeableness p)
        in Inr (max 0 (pressure - resistance)))"

definition calculate_influence :: "persona \<Rightarrow> 'g \<Rightarrow> real" where
  "calculate_influence p group_state =
     extraversion p * (4 / 10) + perceived_expertise p * (4 / 10) + speak_count_ratio p * (2 / 10)"

text \<open>The clamp of the written specification, \<open>clamp(x, lo, hi)\<close>.\<close>

definition clamp :: "real \<Rightarrow> real \<Rightarrow> real \<Rightarrow> real" where
  "clamp x lo hi = max lo (min hi x)"


definition example_persona :: persona where
  "example_persona =
     \<lparr>persona_id = ''persona_001'', name = ''Sarah M.'', extraversion = 1 / 2,
      agreeableness = 1 / 10, conviction = 9 / 10, perceived_expertise = 1 / 2,
      speak_count_ratio = 0\<rparr>"

section \<open>Discussion simulator\<close>

text \<open>
  The product specification's implementation pattern:
  \<^verbatim>\<open>
  class DiscussionSimulator:
      def __init__(self, personas, moderator):
          self.personas = personas
          self.moderator = moderator
          self.transcript = []
          self.turn_count = 0

      async def run_session(self, discussion_guide):
          for section in discussion_guide.sections:
              mod_prompt = self.moderator.introduce_section(section)
              self.transcript.append({"speaker": "moderator", "text": mod_prompt})
              for round_num in range(section.max_rounds):
                  responses = await self.run_round(mod_prompt, section)
                  if not responses:  # no one wants to speak
                      break
                  mod_action = self.moderator.evaluate_round(responses, section)
                  if mod_action.type == "follow_up":
                      mod_prompt = mod_action.prompt
                      self.transcript.append({"speaker": "moderator", "text": mod_prompt})
                  elif mod_action.type == "draw_out":
                      mod_prompt = mod_action.prompt
                      self.transcript.append({"speaker": "moderator", "text": mod_prompt})
                  elif mod_action.type == "move_on":
                      break
          return self.transcript

      async def run_round(self, prompt, section):
          responses = []
          for persona in self.get_speaking_order():
              should_speak = persona.decide_to_speak(prompt=prompt,
                  previous_responses=responses, group_state=self.get_group_state())
              if should_speak:
                  response = await persona.generate_response(prompt=prompt,
                      heard=responses, group_state=self.get_group_state())
                  responses.append(response)
                  self.transcript.append({"speaker": persona.name, "persona_id": persona.id,
                      "text": response.text, "sentiment": response.sentiment,
                      "conviction": response.conviction})
                  self.update_group_state(persona, response)
          return responses
  \<close>
  A transcript entry is one of the two dictionaries the simulator appends: the moderator's,
  with the text, and a persona's, with the speaker's name, the persona id, the text, the
  sentiment and the conviction. The number of rounds of a section is a natural number;
  \<open>range\<close> of it runs that many times.
\<close>

datatype entry =
    ModeratorEntry string
  | PersonaEntry string string string real real

record response =
  response_text :: string
  response_sentiment :: real
  response_conviction :: real

record guide_section =
  section_title :: string
  max_rounds :: nat

record discussion_guide =
  sections :: "guide_section list"

record mod_action =
  action_type :: string
  action_prompt :: string

text \<open>
  The simulator object. Everything the simulator does not hold in its own three fields
  (the group state read by \<open>get_group_state\<close>, the moderator's and the personas' memory,
  the random draws behind \<open>decide_to_speak\<close>, the text generator) is the component
  \<open>world\<close> of an arbitrary type.
\<close>

record 'w simulator =
  personas :: "persona list"
  transcript :: "entry list"
  turn_count :: nat
  world :: 'w

definition new_simulator :: "persona list \<Rightarrow> 'w \<Rightarrow> 'w simulator" where
  "new_simulator ps w = \<lparr>personas = ps, transcript = [], turn_count = 0, world = w\<rparr>"

text \<open>
  The methods the pattern calls and does not define. Each reads and updates the world, so
  two calls with equal arguments may answer differently. \<open>generate_response\<close>, the awaited
  call into the text generator, either returns a response or raises an exception of some
  type \<open>'e\<close> (\<open>Inl\<close>); the pattern has no \<open>try\<close>, so the exception leaves \<open>run_round\<close> and
  \<open>run_session\<close>. The other methods are taken to return.
\<close>

record ('w, 'e) collaborators =
  introduce_section :: "guide_section \<Rightarrow> 'w \<Rightarrow> string \<times> 'w"
  evaluate_round :: "response list \<Rightarrow> guide_section \<Rightarrow> 'w \<Rightarrow> mod_action \<times> 'w"
  get_speaking_order :: "persona list \<Rightarrow> 'w \<Rightarrow> persona list \<times> 'w"
  decide_to_speak :: "persona \<Rightarrow> string \<Rightarrow> response list \<Rightarrow> 'w \<Rightarrow> bool \<times> 'w"
  generate_response :: "persona \<Rightarrow> string \<Rightarrow> response list \<Rightarrow> 'w \<Rightarrow> ('e + response) \<times> 'w"
  update_group_state :: "persona \<Rightarrow> response \<Rightarrow> 'w \<Rightarrow> 'w"

text \<open>
  The body of \<open>run_round\<close>'s loop over the speaking order. The result is the list of
  responses the method returns, or the exception that ended it, together with the
  simulator as the method left it.
\<close>

fun run_round_loop ::
  "('w, 'e) collaborators \<Rightarrow> string \<Rightarrow> persona list \<Rightarrow> response list \<Rightarrow> 'w simulator
    \<Rightarrow> ('e + response list) \<times> 'w simulator" where
  "run_round_loop c prompt [] responses s = (Inr responses, s)"
| "run_round_loop c prompt (p # ps) responses s =
     (case decide_to_speak c p prompt responses (world s) of
        (should_speak, w1) \<Rightarrow>
          if should_speak then
            (case generate_response c p prompt responses w1 of
               (outcome, w2) \<Rightarrow>
                 (case outcome of
                    Inl e \<Rightarrow> (Inl e, s\<lparr>world := w2\<rparr>)
                  | Inr r \<Rightarrow>
                      run_round_loop c prompt ps (responses @ [r])
                        (s\<lparr>transcript := transcript s @
                             [PersonaEntry (name p) (persona_id p) (response_text r)
                                (response_sentiment r) (response_conviction r)],
                           world := update_group_state c p r w2\<rparr>)))
          else run_round_loop c prompt ps responses (s\<lparr>world := w1\<rparr>))"

definition run_round ::
  "('w, 'e) collaborators \<Rightarrow> string \<Rightarrow> guide_section \<Rightarrow> 'w simulator
    \<Rightarrow> ('e + response list) \<times> 'w simulator" where
  "run_round c prompt sec s =
     (case get_speaking_order c (personas s) (world s) of
        (order, w) \<Rightarrow> run_round_loop c prompt order [] (s\<lparr>world := w\<rparr>))"

text \<open>
  The loop \<open>for round_num in range(section.max_rounds)\<close>; the first argument after the
  section counts the rounds still to run. The first component of the result is the
  exception, if one ended the loop.
\<close>

fun run_rounds ::
  "('w, 'e) collaborators \<Rightarrow> guide_section \<Rightarrow> nat \<Rightarrow> string \<Rightarrow> 'w simulator
    \<Rightarrow> 'e option \<times> 'w simulator" where
  "run_rounds c sec 0 mod_prompt s = (None, s)"
| "run_rounds c sec (Suc n) mod_prompt s =
     (case run_round c mod_prompt sec s of
        (outcome, s1) \<Rightarrow>
          (case outcome of
             Inl e \<Rightarrow> (Some e, s1)
           | Inr responses \<Rightarrow>
               if responses = [] then (None, s1)
               else
                 (case evaluate_round c responses sec (world s1) of
                    (act, w) \<Rightarrow>
                      if action_type act = ''follow_up'' then
                        run_rounds c sec n (action_prompt act)
                          (s1\<lparr>transcript := transcript s1 @ [ModeratorEntry (action_prompt act)],
                              world := w\<rparr>)
                      else if action_type act = ''draw_out'' then
                        run_rounds c sec n (action_prompt act)
                          (s1\<lparr>transcript := transcript s1 @ [ModeratorEntry (action_prompt act)],
                              world := w\<rparr>)
                      else if action_type act = ''move_on'' then (None, s1\<lparr>world := w\<rparr>)
                      else run_rounds c sec n mod_prompt (s1\<lparr>world := w\<rparr>))))"

text \<open>One iteration of \<open>run_session\<close>'s loop over the sections.\<close>

definition run_section ::
  "('w, 'e) collaborators \<Rightarrow> guide_section \<Rightarrow> 'w simulator \<Rightarrow> 'e option \<times> 'w simulator" where
  "run_section c sec s =
     (case introduce_section c sec (world s) of
        (mod_prompt, w) \<Rightarrow>
          run_rounds c sec (max_rounds sec) mod_prompt
            (s\<lparr>transcript := transcript s @ [ModeratorEntry mod_prompt], world := w\<rparr>))"

fun run_sections ::
  "('w, 'e) collaborators \<Rightarrow> guide_section list \<Rightarrow> 'w simulator \<Rightarrow> 'e option \<times> 'w simulator" where
  "run_sections c [] s = (None, s)"
| "run_sections c (sec # secs) s =
     (case run_section c sec s of
        (raised, s1) \<Rightarrow>
          (case raised of
             Some e \<Rightarrow> (Some e, s1)
           | None \<Rightarrow> run_sections c secs s1))"

text \<open>
  \<open>run_session\<close> returns the transcript (\<open>Inr\<close>), or raises (\<open>Inl\<close>) and returns nothing;
  the simulator as the run left it is given with either.
\<close>

definition run_session ::
  "('w, 'e) collaborators \<Rightarrow> discussion_guide \<Rightarrow> 'w simulator
    \<Rightarrow> ('e + entry list) \<times> 'w simulator" where
  "run_session c guide s =
     (case run_sections c (sections guide) s of
        (raised, s1) \<Rightarrow>
          (case raised of
             Some e \<Rightarrow> (Inl e, s1)
           | None \<Rightarrow> (Inr (transcript s1), s1)))"



text \<open>
  Collaborators for running the simulator on small inputs. The world counts the calls of
  \<open>decide_to_speak\<close> and of \<open>generate_response\<close>. With \<open>silent_group\<close> nobody ever chooses to
  speak; with \<open>talkative_group\<close> everybody does, and the moderator moves on after each
  round; with \<open>unavailable_generator\<close> everybody chooses to speak and every call of
  \<open>generate_response\<close> raises a timeout.
\<close>

record call_counts =
  decide_calls :: nat
  generate_calls :: nat

datatype generation_failure = GenerationTimeout | GenerationRateLimited

definition no_calls :: call_counts where
  "no_calls = \<lparr>decide_calls = 0, generate_calls = 0\<rparr>"

definition silent_group :: "(call_counts, generation_failure) collaborators" where
  "silent_group =
     \<lparr>introduce_section = (\<lambda>sec w. (section_title sec, w)),
      evaluate_round = (\<lambda>rs sec w. (\<lparr>action_type = ''move_on'', action_prompt = []\<rparr>, w)),
      get_speaking_order = (\<lambda>ps w. (ps, w)),
      decide_to_speak = (\<lambda>p prompt rs w. (False, w\<lparr>decide_calls := Suc (decide_calls w)\<rparr>)),
      generate_response = (\<lambda>p prompt rs w.
        (Inr \<lparr>response_text = ''I agree'', response_sentiment = 1 / 2,
          response_conviction = conviction p\<rparr>,
         w\<lparr>generate_calls := Suc (generate_calls w)\<rparr>)),
      update_group_state = (\<lambda>p r w. w)\<rparr>"

definition talkative_group :: "(call_counts, generation_failure) collaborators" where
  "talkative_group =
     silent_group\<lparr>decide_to_speak :=
       (\<lambda>p prompt rs w. (True, w\<lparr>decide_calls := Suc (decide_calls w)\<rparr>))\<rparr>"

definition unavailable_generator :: "(call_counts, generation_failure) collaborators" where
  "unavailable_generator =
     talkative_group\<lparr>generate_response :=
       (\<lambda>p prompt rs w. (Inl GenerationTimeout, w\<lparr>generate_calls := Suc (generate_calls w)\<rparr>))\<rparr>"

definition warmup_guide :: discussion_guide where
  "warmup_guide = \<lparr>sections = [\<lparr>section_title = ''Warm-Up'', max_rounds = 1\<rparr>]\<rparr>"

definition two_section_guide :: discussion_guide where
  "two_section_guide =
     \<lparr>sections = [\<lparr>section_title = ''Warm-Up'', max_rounds = 3\<rparr>,
                  \<lparr>section_title = ''Exploration'', max_rounds = 3\<rparr>]\<rparr>"


section \<open>Survey submission endpoint\<close>

text \<open>
  The Cloudflare Pages function \<^verbatim>\<open>validation/survey/functions/api/submit.js\<close>:
  \<^verbatim>\<open>
  export async function onRequestPost(context) {
    try {
      const data = await context.request.json();
      data._server_ts = new Date().toISOString();
      data._id = crypto.randomUUID();
      const key = `response:${data._id}`;
      await context.env.SURVEY_KV.put(key, JSON.stringify(data));
      const countStr = await context.env.SURVEY_KV.get('response_count') || '0';
      await context.env.SURVEY_KV.put('response_count', String(parseInt(countStr, 10) + 1));
      return new Response(JSON.stringify({ ok: true, id: data._id }), {
        headers: { 'Content-Type': 'application/json', 'Access-Control-Allow-Origin': '*' },
      });
    } catch (e) {
      return new Response(JSON.stringify({ ok: false, error: e.message }), {
        status: 500, headers: { 'Content-Type': 'application/json' },
      });
    }
  }
  \<close>
\<close>

subsection \<open>JavaScript values and built-ins\<close>

text \<open>
  A JavaScript string is a sequence of UTF-16 code units, here natural numbers. \<open>js\<close>
  gives the code units of an ASCII literal.
\<close>

type_synonym js_string = "nat list"

definition js :: "string \<Rightarrow> js_string" where
  "js s = map of_char s"

text \<open>
  What \<open>request.json()\<close> can resolve to. Numbers are integers here; the handler does no
  arithmetic on the body. An object is the list of its own properties in insertion order.
\<close>

datatype json =
    JNull
  | JBool bool
  | JNum int
  | JStr js_string
  | JArr "json list"
  | JObj "(js_string \<times> json) list"

text \<open>
  Assigning an own property of an ordinary object: an existing key keeps its place and
  takes the new value, a new key goes last.
\<close>

fun update_field ::
  "js_string \<Rightarrow> json \<Rightarrow> (js_string \<times> json) list \<Rightarrow> (js_string \<times> json) list" where
  "update_field k v [] = [(k, v)]"
| "update_field k v ((k', v') # fs) =
     (if k' = k then (k, v) # fs else (k', v') # update_field k v fs)"

text \<open>
  The assignment \<open>data.k = v\<close> in module code, which is strict: on \<open>null\<close> and on a
  primitive value it throws a TypeError, whose message is the engine's; the first argument
  gives it for the property and the value. An array accepts the property, but
  \<open>JSON.stringify\<close> writes only an array's elements, so the value that is serialised later
  is the array as it was.
\<close>

fun assign_property ::
  "(js_string \<Rightarrow> json \<Rightarrow> js_string) \<Rightarrow> js_string \<Rightarrow> json \<Rightarrow> json \<Rightarrow> js_string + json" where
  "assign_property type_error k v (JObj fs) = Inr (JObj (update_field k v fs))"
| "assign_property type_error k v (JArr xs) = Inr (JArr xs)"
| "assign_property type_error k v JNull = Inl (type_error k JNull)"
| "assign_property type_error k v (JBool b) = Inl (type_error k (JBool b))"
| "assign_property type_error k v (JNum n) = Inl (type_error k (JNum n))"
| "assign_property type_error k v (JStr s) = Inl (type_error k (JStr s))"

text \<open>Decimal digits are the code units 48 to 57. \<open>decimal\<close> writes a natural number.\<close>

definition digit_unit :: "nat \<Rightarrow> nat" where
  "digit_unit d = 48 + d"

definition is_decimal_digit :: "nat \<Rightarrow> bool" where
  "is_decimal_digit u = (48 \<le> u \<and> u \<le> 57)"

function decimal :: "nat \<Rightarrow> js_string" where
  "decimal n = (if n < 10 then [digit_unit n] else decimal (n div 10) @ [digit_unit (n mod 10)])"
  by pat_completeness auto
termination
  by (relation "measure (\<lambda>n. n)") auto

declare decimal.simps [simp del]

text \<open>
  The numbers of the counter. A JavaScript number is a double: every integer of magnitude
  up to \<open>2^53\<close> is one, exactly, and the model computes with those. \<open>Beyond\<close> stands for the
  double that \<open>parseInt\<close> gives for a digit run of greater magnitude, which depends on
  rounding and, past twenty digits, on the implementation; the model does not give its
  value.
\<close>

datatype js_number = NaN | Whole int | Beyond

definition exact_limit :: nat where
  "exact_limit = 2 ^ 53"

text \<open>
  \<open>parseInt(s, 10)\<close>: leading white space is skipped (the code units of \<open>WhiteSpace\<close> and
  \<open>LineTerminator\<close>: tab, line feed, vertical tab, form feed, carriage return, space,
  U+00A0, U+1680, U+2000 to U+200A, U+2028, U+2029, U+202F, U+205F, U+3000, U+FEFF), then
  an optional sign, then the longest run of decimal digits; no digit gives \<open>NaN\<close>.
\<close>

definition is_js_space :: "nat \<Rightarrow> bool" where
  "is_js_space u =
     (u \<in> set [9, 10, 11, 12, 13, 32, 160, 5760,
                8192, 8193, 8194, 8195, 8196, 8197, 8198, 8199, 8200, 8201, 8202,
                8232, 8233, 8239, 8287, 12288, 65279])"

definition digits_value :: "js_string \<Rightarrow> nat" where
  "digits_value ds = foldl (\<lambda>acc u. 10 * acc + (u - 48)) 0 ds"

definition parseInt10 :: "js_string \<Rightarrow> js_number" where
  "parseInt10 s =
     (let t = dropWhile is_js_space s;
          neg = (t \<noteq> [] \<and> hd t = 45);
          u = (if t \<noteq> [] \<and> (hd t = 45 \<or> hd t = 43) then tl t else t);
          ds = takeWhile is_decimal_digit u
      in if ds = [] then NaN
         else if exact_limit < digits_value ds then Beyond
         else Whole (if neg then - int (digits_value ds) else int (digits_value ds)))"

text \<open>\<open>String(n)\<close> for a whole number of magnitude up to \<open>2^53\<close>.\<close>

definition whole_text :: "int \<Rightarrow> js_string" where
  "whole_text n = (if n < 0 then 45 # decimal (nat (- n)) else decimal (nat n))"

text \<open>
  \<open>String(parseInt(countStr, 10) + 1)\<close>. \<open>NaN + 1\<close> is \<open>NaN\<close>. On a whole number the addition
  is exact except at \<open>2^53\<close>, where the sum rounds back to \<open>2^53\<close>. For a number beyond,
  the text is the platform's, given by the first argument for the counter text.
\<close>

definition next_count_text :: "(js_string \<Rightarrow> js_string) \<Rightarrow> js_string \<Rightarrow> js_string" where
  "next_count_text beyond_text countStr =
     (case parseInt10 countStr of
        NaN \<Rightarrow> js ''NaN''
      | Whole n \<Rightarrow> whole_text (if n = int exact_limit then n else n + 1)
      | Beyond \<Rightarrow> beyond_text countStr)"

subsection \<open>The handler\<close>

text \<open>
  The request and the platform, as one call of the handler meets them: what
  \<open>request.json()\<close> resolves to (\<open>Inl\<close> the message of the error it rejects with, for a body
  that is not JSON), the clock, the UUID generator, \<open>JSON.stringify\<close>, the engine's
  TypeError messages, its text for a counter beyond \<open>2^53\<close>, and for each of the three
  calls on \<open>SURVEY_KV\<close>, numbered 0, 1, 2, whether it throws and with which message. The
  namespace is a map from keys to strings; a call that throws leaves it as it was.
\<close>

record request_context =
  request_json :: "js_string + json"
  now_iso :: js_string
  random_uuid :: js_string
  JSON_stringify :: "json \<Rightarrow> js_string"
  type_error_message :: "js_string \<Rightarrow> json \<Rightarrow> js_string"
  beyond_text :: "js_string \<Rightarrow> js_string"
  kv_fault :: "nat \<Rightarrow> js_string option"

type_synonym kv_namespace = "js_string \<rightharpoonup> js_string"

record http_response =
  status :: nat
  body :: js_string
  headers :: "(js_string \<times> js_string) list"

definition kv_put ::
  "request_context \<Rightarrow> nat \<Rightarrow> js_string \<Rightarrow> js_string \<Rightarrow> kv_namespace
    \<Rightarrow> js_string + kv_namespace" where
  "kv_put ctx i k v kv = (case kv_fault ctx i of Some msg \<Rightarrow> Inl msg | None \<Rightarrow> Inr (kv(k \<mapsto> v)))"

definition kv_get ::
  "request_context \<Rightarrow> nat \<Rightarrow> js_string \<Rightarrow> kv_namespace \<Rightarrow> js_string + js_string option" where
  "kv_get ctx i k kv = (case kv_fault ctx i of Some msg \<Rightarrow> Inl msg | None \<Rightarrow> Inr (kv k))"

definition ok_response :: "request_context \<Rightarrow> http_response" where
  "ok_response ctx =
     \<lparr>status = 200,
      body = JSON_stringify ctx
        (JObj [(js ''ok'', JBool True), (js ''id'', JStr (random_uuid ctx))]),
      headers = [(js ''Content-Type'', js ''application/json''),
                 (js ''Access-Control-Allow-Origin'', js ''*'')]\<rparr>"

definition error_response :: "request_context \<Rightarrow> js_string \<Rightarrow> http_response" where
  "error_response ctx msg =
     \<lparr>status = 500,
      body = JSON_stringify ctx (JObj [(js ''ok'', JBool False), (js ''error'', JStr msg)]),
      headers = [(js ''Content-Type'', js ''application/json'')]\<rparr>"

text \<open>\<open>x || '0'\<close> for the result of \<open>get\<close>: \<open>null\<close> and the empty string are falsy.\<close>

definition or_zero :: "js_string option \<Rightarrow> js_string" where
  "or_zero got = (case got of None \<Rightarrow> js ''0'' | Some s \<Rightarrow> if s = [] then js ''0'' else s)"

text \<open>
  The handler. Once the assignment \<open>data._id = \<dots>\<close> has gone through, \<open>data._id\<close> reads
  the id just generated, so the key and the body of the answer are built from that id.
\<close>

definition onRequestPost :: "request_context \<Rightarrow> kv_namespace \<Rightarrow> http_response \<times> kv_namespace" where
  "onRequestPost ctx kv =
     (case request_json ctx of
        Inl msg \<Rightarrow> (error_response ctx msg, kv)
      | Inr data \<Rightarrow>
     (case assign_property (type_error_message ctx) (js ''_server_ts'') (JStr (now_iso ctx)) data of
        Inl msg \<Rightarrow> (error_response ctx msg, kv)
      | Inr data1 \<Rightarrow>
     (case assign_property (type_error_message ctx) (js ''_id'') (JStr (random_uuid ctx)) data1 of
        Inl msg \<Rightarrow> (error_response ctx msg, kv)
      | Inr data2 \<Rightarrow>
     (case kv_put ctx 0 (js ''response:'' @ random_uuid ctx) (JSON_stringify ctx data2) kv of
        Inl msg \<Rightarrow> (error_response ctx msg, kv)
      | Inr kv1 \<Rightarrow>
     (case kv_get ctx 1 (js ''response_count'') kv1 of
        Inl msg \<Rightarrow> (error_response ctx msg, kv1)
      | Inr got \<Rightarrow>
     (case kv_put ctx 2 (js ''response_count'')
             (next_count_text (beyond_text ctx) (or_zero got)) kv1 of
        Inl msg \<Rightarrow> (error_response ctx msg, kv1)
      | Inr kv2 \<Rightarrow> (ok_response ctx, kv2)))))))"

text \<open>The two assignments \<open>data._server_ts = \<dots>; data._id = \<dots>\<close> taken together.\<close>

definition stamp :: "request_context \<Rightarrow> json \<Rightarrow> js_string + json" where
  "stamp ctx data =
     (case assign_property (type_error_message ctx) (js ''_server_ts'') (JStr (now_iso ctx)) data of
        Inl msg \<Rightarrow> Inl msg
      | Inr data1 \<Rightarrow>
          assign_property (type_error_message ctx) (js ''_id'') (JStr (random_uuid ctx)) data1)"

text \<open>
  A platform for running the handler on small inputs. Its serialiser is \<open>JSON.stringify\<close>
  for values whose strings are printable ASCII without quotes or backslashes; its TypeError
  message is V8's for \<open>null\<close>, and its counter beyond \<open>2^53\<close> is never reached in the runs
  below.
\<close>

fun join_with_commas :: "js_string list \<Rightarrow> js_string" where
  "join_with_commas [] = []"
| "join_with_commas [x] = x"
| "join_with_commas (x # y # ys) = x @ js '','' @ join_with_commas (y # ys)"

definition quoted :: "js_string \<Rightarrow> js_string" where
  "quoted s = 34 # s @ [34]"

fun render_json :: "json \<Rightarrow> js_string" where
  "render_json JNull = js ''null''"
| "render_json (JBool b) = (if b then js ''true'' else js ''false'')"
| "render_json (JNum n) = whole_text n"
| "render_json (JStr s) = quoted s"
| "render_json (JArr xs) = js ''['' @ join_with_commas (map render_json xs) @ js '']''"
| "render_json (JObj fs) =
     js ''{'' @ join_with_commas (map (\<lambda>kv. quoted (fst kv) @ js '':'' @ render_json (snd kv)) fs)
       @ js ''}''"

definition example_context :: request_context where
  "example_context =
     \<lparr>request_json = Inr (JObj [(js ''q1'', JNum 4)]),
      now_iso = js ''2025-01-01T00:00:00.000Z'',
      random_uuid = js ''u-1'',
      JSON_stringify = render_json,
      type_error_message = (\<lambda>k v. js ''Cannot set properties of null''),
      beyond_text = (\<lambda>s. s),
      kv_fault = (\<lambda>i. None)\<rparr>"

definition failing_get_context :: request_context where
  "failing_get_context =
     example_context\<lparr>kv_fault := (\<lambda>i. if i = 1 then Some (js ''KV GET failed'') else None)\<rparr>"

definition array_context :: request_context where
  "array_context = example_context\<lparr>request_json := Inr (JArr [])\<rparr>"

section \<open>Speaking decision and opinion leadership\<close>

text \<open>
  Modelled from the spec: the body of \<open>Participant.should_speak\<close>. The sources declare the
  method with its docstring (high extraversion speaks with 85% chance, medium with 60%,
  low with 35%, always when directly addressed by the moderator) and hold no body. The
  specification gives the tertiles on the 0 to 100 scale (high from 70, mid from 30 to 70,
  low under 30) and the adjustments: an address bonus for a participant named in the
  question, a divergence bonus for high conviction with a stance opposite the group mean,
  a recency penalty for having spoken in the preceding round. It gives no sizes for the
  three adjustments: they are fields of the situation. The decision compares one draw of
  the seeded random source, a number in [0, 1), with the probability.
\<close>

definition base_speak_probability :: "real \<Rightarrow> real" where
  "base_speak_probability extraversion_score =
     (if 70 \<le> extraversion_score then 85 / 100
      else if 30 \<le> extraversion_score then 60 / 100
      else 35 / 100)"

record speak_situation =
  directly_addressed :: bool
  address_bonus :: real
  diverges_from_group :: bool
  divergence_bonus :: real
  spoke_last_round :: bool
  recency_penalty :: real

definition speak_probability :: "real \<Rightarrow> speak_situation \<Rightarrow> real" where
  "speak_probability extraversion_score sit =
     base_speak_probability extraversion_score
       + (if directly_addressed sit then address_bonus sit else 0)
       + (if diverges_from_group sit then divergence_bonus sit else 0)
       - (if spoke_last_round sit then recency_penalty sit else 0)"

definition shouldSpeak :: "real \<Rightarrow> speak_situation \<Rightarrow> real \<Rightarrow> bool" where
  "shouldSpeak extraversion_score sit draw =
     (directly_addressed sit \<or> draw < speak_probability extraversion_score sit)"

definition plain_situation :: speak_situation where
  "plain_situation =
     \<lparr>directly_addressed = False, address_bonus = 3 / 10, diverges_from_group = False,
      divergence_bonus = 1 / 10, spoke_last_round = False, recency_penalty = 2 / 10\<rparr>"

text \<open>
  Modelled from the spec: the selection of the opinion leader. The simulator calls
  \<open>update_group_state\<close> and \<open>get_group_state\<close> and the sources hold neither. By the
  specification the loop keeps a \<open>speakCount\<close> for every participant and the group state
  holds the current \<open>opinionLeaderId\<close>, none until someone has spoken; after a
  participant's turn the participant with maximum influence among those who have spoken
  becomes the leader. The influence is the source's \<open>calculate_influence\<close>, read at that
  point of the run: a participant's speak-count ratio is its share of the turns taken
  so far, for every participant and not only for the one who has just spoken. Of several
  participants with the maximum influence the first in the order of the participants is
  taken.
\<close>

record group_state =
  participants :: "(persona \<times> nat) list"
  opinionLeaderId :: "string option"

definition initial_group_state :: "persona list \<Rightarrow> group_state" where
  "initial_group_state ps = \<lparr>participants = map (\<lambda>p. (p, 0)) ps, opinionLeaderId = None\<rparr>"

definition total_turns :: "(persona \<times> nat) list \<Rightarrow> nat" where
  "total_turns ps = sum_list (map snd ps)"

text \<open>A participant as the influence function sees it at this point of the run.\<close>

definition as_of_now :: "(persona \<times> nat) list \<Rightarrow> persona \<times> nat \<Rightarrow> persona" where
  "as_of_now ps pn =
     (fst pn)\<lparr>speak_count_ratio :=
        (if total_turns ps = 0 then 0 else real (snd pn) / real (total_turns ps))\<rparr>"

definition has_spoken :: "persona \<times> nat \<Rightarrow> bool" where
  "has_spoken pn = (0 < snd pn)"

fun max_influence :: "'g \<Rightarrow> persona list \<Rightarrow> persona option" where
  "max_influence g [] = None"
| "max_influence g (p # ps) =
     (case max_influence g ps of
        None \<Rightarrow> Some p
      | Some q \<Rightarrow> if calculate_influence q g \<le> calculate_influence p g then Some p else Some q)"

definition choose_leader :: "(persona \<times> nat) list \<Rightarrow> string option" where
  "choose_leader ps =
     map_option persona_id (max_influence ps (map (as_of_now ps) (filter has_spoken ps)))"

text \<open>The turn of the participant with the given id.\<close>

definition after_turn :: "group_state \<Rightarrow> string \<Rightarrow> group_state" where
  "after_turn g speaker =
     (let ps = map (\<lambda>pn. if persona_id (fst pn) = speaker then (fst pn, Suc (snd pn)) else pn)
                 (participants g)
      in \<lparr>participants = ps, opinionLeaderId = choose_leader ps\<rparr>)"

definition group_state_after :: "persona list \<Rightarrow> string list \<Rightarrow> group_state" where
  "group_state_after ps speakers = foldl after_turn (initial_group_state ps) speakers"

definition influence_now :: "group_state \<Rightarrow> persona \<times> nat \<Rightarrow> real" where
  "influence_now g pn = calculate_influence (as_of_now (participants g) pn) g"

definition leads_the_spoken :: "group_state \<Rightarrow> bool" where
  "leads_the_spoken g =
     (case opinionLeaderId g of
        None \<Rightarrow> (\<forall>pn \<in> set (participants g). \<not> has_spoken pn)
      | Some i \<Rightarrow>
          (\<exists>pn \<in> set (participants g). has_spoken pn \<and> persona_id (fst pn) = i
             \<and> (\<forall>qm \<in> set (participants g).
                   has_spoken qm \<longrightarrow> influence_now g qm \<le> influence_now g pn)))"

definition quiet_expert :: persona where
  "quiet_expert =
     \<lparr>persona_id = ''persona_002'', name = ''David R.'', extraversion = 2 / 10,
      agreeableness = 3 / 10, conviction = 8 / 10, perceived_expertise = 7 / 10,
      speak_count_ratio = 0\<rparr>"

section \<open>Verified properties\<close>

subsection \<open>Conformity pressure\<close>

lemma pre_clamp_le_one:
  fixes r a c W :: real
  assumes "0 \<le> r" "r \<le> 1" "0 \<le> a" "a \<le> 1" "0 \<le> c" "0 \<le> W" "W \<le> 1"
  shows "r * a * W - c * (1 - a) \<le> 1"
proof -
  have "r * a \<le> 1 * 1"
    by (rule mult_mono) (use assms in simp_all)
  moreover have "0 \<le> r * a" using assms by simp
  ultimately have "r * a * W \<le> 1 * 1"
    by (intro mult_mono) (use assms in simp_all)
  moreover have "0 \<le> c * (1 - a)" using assms by simp
  ultimately show ?thesis by simp
qed

text \<open>
  C5, as the code has it. With at least one speaker counted, the function returns
  \<open>max 0 (agreement_ratio * agreeableness * CONFORMITY_WEIGHT - conviction * (1 - agreeableness))\<close>,
  which is never below 0. The code has no upper clamp: the value is at most 1, and equal
  to the specification's \<open>clamp(\<dots>, 0, 1)\<close>, when the agreeing speakers are at most the
  speakers counted, agreeableness lies in [0, 1], conviction is not negative and the
  weight lies in [0, 1]. With no speaker counted the division raises.
\<close>

theorem conformity_pressure_lower_clamp:
  "(0 < n \<longrightarrow>
      calculate_conformity_pressure W ca n p g =
        Inr (max 0 (real (ca g) / real n * agreeableness p * W
                     - conviction p * (1 - agreeableness p)))
      \<and> (\<forall>v. calculate_conformity_pressure W ca n p g = Inr v \<longrightarrow> 0 \<le> v))
   \<and> (0 < n \<and> ca g \<le> n \<and> 0 \<le> agreeableness p \<and> agreeableness p \<le> 1
        \<and> 0 \<le> conviction p \<and> 0 \<le> W \<and> W \<le> 1 \<longrightarrow>
      calculate_conformity_pressure W ca n p g =
        Inr (clamp (real (ca g) / real n * agreeableness p * W
                     - conviction p * (1 - agreeableness p)) 0 1))
   \<and> (n = 0 \<longrightarrow> calculate_conformity_pressure W ca n p g = Inl ZeroDivisionError)"
proof (intro conjI impI)
  assume "0 < n"
  then show "calculate_conformity_pressure W ca n p g =
        Inr (max 0 (real (ca g) / real n * agreeableness p * W
                     - conviction p * (1 - agreeableness p)))"
    by (simp add: calculate_conformity_pressure_def Let_def)
  then show "\<forall>v. calculate_conformity_pressure W ca n p g = Inr v \<longrightarrow> 0 \<le> v"
    by simp
next
  assume h: "0 < n \<and> ca g \<le> n \<and> 0 \<le> agreeableness p \<and> agreeableness p \<le> 1
        \<and> 0 \<le> conviction p \<and> 0 \<le> W \<and> W \<le> 1"
  then have "real (ca g) / real n \<le> 1" "0 \<le> real (ca g) / real n" by simp_all
  then have "real (ca g) / real n * agreeableness p * W
      - conviction p * (1 - agreeableness p) \<le> 1"
    using h by (intro pre_clamp_le_one) simp_all
  then show "calculate_conformity_pressure W ca n p g =
        Inr (clamp (real (ca g) / real n * agreeableness p * W
                     - conviction p * (1 - agreeableness p)) 0 1)"
    using h by (simp add: calculate_conformity_pressure_def Let_def clamp_def min_def)
next
  assume "n = 0"
  then show "calculate_conformity_pressure W ca n p g = Inl ZeroDivisionError"
    by (simp add: calculate_conformity_pressure_def)
qed

theorem conformity_pressure_lower_clamp_witness:
  "calculate_conformity_pressure 1 id 8
      (example_persona\<lparr>agreeableness := 4 / 5, conviction := 1 / 2\<rparr>) (6::nat) = Inr (1 / 2)
   \<and> clamp (real 6 / real 8 * (4 / 5) * 1 - 1 / 2 * (1 - 4 / 5)) 0 1 = 1 / 2
   \<and> calculate_conformity_pressure 1 id 0 example_persona (6::nat) = Inl ZeroDivisionError"
  using conformity_pressure_lower_clamp
      [of 8 1 id "example_persona\<lparr>agreeableness := 4 / 5, conviction := 1 / 2\<rparr>" "6::nat"]
    conformity_pressure_lower_clamp [of 0 1 id example_persona "6::nat"]
  by (simp add: example_persona_def clamp_def)

text \<open>
  C5 as stated fails in two places. With weight 2, one speaker who agrees, agreeableness 1
  and conviction 0 the code returns 2, where the clamp to [0, 1] gives 1; and with no
  speaker counted the code raises instead of returning a value.
\<close>

theorem conformity_pressure_clamp_counterexample:
  "calculate_conformity_pressure 2 id 1
      (example_persona\<lparr>agreeableness := 1, conviction := 0\<rparr>) (1::nat) = Inr 2
   \<and> clamp (real 1 / real 1 * 1 * 2 - 0 * (1 - 1)) 0 1 = 1
   \<and> calculate_conformity_pressure 1 id 0 example_persona (0::nat) = Inl ZeroDivisionError"
  by (simp add: calculate_conformity_pressure_def example_persona_def clamp_def)

text \<open>
  C6. A persona with normalised agreeableness 0.1 and conviction 0.9, with 6 of 8 speakers
  agreeing: the resistance is 0.81, the pressure term is 0.075 times the weight, and the
  function returns exactly 0 for every weight up to 10.8.
\<close>

theorem resistance_saturates_floor:
  assumes W: "W \<le> 54 / 5"
    and a: "agreeableness p = 1 / 10"
    and c: "conviction p = 9 / 10"
    and g: "count_agreeing g = 6"
  shows "calculate_conformity_pressure W count_agreeing 8 p g = Inr 0
    \<and> conviction p * (1 - agreeableness p) = 81 / 100
    \<and> real (count_agreeing g) / 8 * agreeableness p * W
        \<le> conviction p * (1 - agreeableness p)"
proof -
  have res: "conviction p * (1 - agreeableness p) = 81 / 100"
    unfolding a c by simp
  have pre: "real (count_agreeing g) / 8 * agreeableness p * W = 3 / 40 * W"
    unfolding a g by simp
  have le: "3 / 40 * W \<le> 81 / 100" using W by simp
  have "calculate_conformity_pressure W count_agreeing 8 p g
      = Inr (max 0 (real (count_agreeing g) / 8 * agreeableness p * W
                     - conviction p * (1 - agreeableness p)))"
    by (simp add: calculate_conformity_pressure_def Let_def)
  also have "\<dots> = Inr 0"
    unfolding pre res using le by simp
  finally have val: "calculate_conformity_pressure W count_agreeing 8 p g = Inr 0" .
  have third: "real (count_agreeing g) / 8 * agreeableness p * W
      \<le> conviction p * (1 - agreeableness p)"
    unfolding pre res by (rule le)
  from val res third show ?thesis by (intro conjI)
qed

theorem resistance_saturates_floor_witness:
  "(1::real) \<le> 54 / 5 \<and> agreeableness example_persona = 1 / 10
   \<and> conviction example_persona = 9 / 10
   \<and> calculate_conformity_pressure 1 id 8 example_persona (6::nat) = Inr 0"
  using resistance_saturates_floor [of 1 example_persona id "6::nat"]
  by (simp add: example_persona_def)

subsection \<open>The simulator's transcript\<close>

lemma run_round_loop_extends:
  "run_round_loop c prompt ps rs s = (res, s') \<Longrightarrow>
     (\<exists>es. transcript s' = transcript s @ es) \<and> turn_count s' = turn_count s
       \<and> personas s' = personas s"
proof (induction ps arbitrary: rs s)
  case Nil
  then show ?case by auto
next
  case (Cons p ps)
  obtain b w1 where d: "decide_to_speak c p prompt rs (world s) = (b, w1)"
    by (cases "decide_to_speak c p prompt rs (world s)")
  show ?case
  proof (cases b)
    case False
    with Cons.prems d have "run_round_loop c prompt ps rs (s\<lparr>world := w1\<rparr>) = (res, s')"
      by simp
    from Cons.IH [OF this] show ?thesis by simp
  next
    case True
    obtain outcome w2 where g: "generate_response c p prompt rs w1 = (outcome, w2)"
      by (cases "generate_response c p prompt rs w1")
    show ?thesis
    proof (cases outcome)
      case (Inl e)
      with Cons.prems d g True show ?thesis by auto
    next
      case (Inr r)
      let ?s1 = "s\<lparr>transcript := transcript s @
                        [PersonaEntry (name p) (persona_id p) (response_text r)
                           (response_sentiment r) (response_conviction r)],
                      world := update_group_state c p r w2\<rparr>"
      from Cons.prems d g True Inr
      have "run_round_loop c prompt ps (rs @ [r]) ?s1 = (res, s')"
        by simp
      from Cons.IH [OF this] show ?thesis by auto
    qed
  qed
qed


lemma run_round_extends:
  "run_round c prompt sec s = (res, s') \<Longrightarrow>
     (\<exists>es. transcript s' = transcript s @ es) \<and> turn_count s' = turn_count s
       \<and> personas s' = personas s"
  unfolding run_round_def
  by (auto split: prod.splits dest!: run_round_loop_extends)


lemma run_rounds_extends:
  "(\<exists>es. transcript (snd (run_rounds c sec n mp s)) = transcript s @ es)
     \<and> turn_count (snd (run_rounds c sec n mp s)) = turn_count s
     \<and> personas (snd (run_rounds c sec n mp s)) = personas s"
proof (induction n arbitrary: mp s)
  case 0
  show ?case by simp
next
  case (Suc n)
  obtain outcome s1 where r: "run_round c mp sec s = (outcome, s1)"
    by (cases "run_round c mp sec s")
  from run_round_extends [OF r] obtain es1
    where e1: "transcript s1 = transcript s @ es1" "turn_count s1 = turn_count s"
      "personas s1 = personas s"
    by blast
  show ?case
  proof (cases outcome)
    case (Inl e)
    with r e1 show ?thesis by simp
  next
    case (Inr rs)
    show ?thesis
    proof (cases "rs = []")
      case True
      with r Inr e1 show ?thesis by simp
    next
      case False
      obtain act w where ev: "evaluate_round c rs sec (world s1) = (act, w)"
        by (cases "evaluate_round c rs sec (world s1)")
      let ?s2 = "s1\<lparr>transcript := transcript s1 @ [ModeratorEntry (action_prompt act)],
        world := w\<rparr>"
      from Suc.IH [of "action_prompt act" ?s2] e1 obtain es2
        where ih1: "transcript (snd (run_rounds c sec n (action_prompt act) ?s2))
            = transcript s @ es2"
          "turn_count (snd (run_rounds c sec n (action_prompt act) ?s2)) = turn_count s"
          "personas (snd (run_rounds c sec n (action_prompt act) ?s2)) = personas s"
        by auto
      from Suc.IH [of mp "s1\<lparr>world := w\<rparr>"] e1 obtain es3
        where ih2: "transcript (snd (run_rounds c sec n mp (s1\<lparr>world := w\<rparr>)))
            = transcript s @ es3"
          "turn_count (snd (run_rounds c sec n mp (s1\<lparr>world := w\<rparr>))) = turn_count s"
          "personas (snd (run_rounds c sec n mp (s1\<lparr>world := w\<rparr>))) = personas s"
        by auto
      consider "action_type act = ''follow_up''"
        | "action_type act \<noteq> ''follow_up''" "action_type act = ''draw_out''"
        | "action_type act \<noteq> ''follow_up''" "action_type act \<noteq> ''draw_out''"
          "action_type act = ''move_on''"
        | "action_type act \<noteq> ''follow_up''" "action_type act \<noteq> ''draw_out''"
          "action_type act \<noteq> ''move_on''"
        by blast
      then show ?thesis
      proof cases
        case 1
        with r Inr False ev have "run_rounds c sec (Suc n) mp s
            = run_rounds c sec n (action_prompt act) ?s2"
          by simp
        with ih1 show ?thesis by simp
      next
        case 2
        with r Inr False ev have "run_rounds c sec (Suc n) mp s
            = run_rounds c sec n (action_prompt act) ?s2"
          by simp
        with ih1 show ?thesis by simp
      next
        case 3
        with r Inr False ev have "run_rounds c sec (Suc n) mp s = (None, s1\<lparr>world := w\<rparr>)"
          by simp
        with e1 show ?thesis by simp
      next
        case 4
        with r Inr False ev have "run_rounds c sec (Suc n) mp s
            = run_rounds c sec n mp (s1\<lparr>world := w\<rparr>)"
          by simp
        with ih2 show ?thesis by simp
      qed
    qed
  qed
qed



lemma run_section_extends:
  "(\<exists>es. transcript (snd (run_section c sec s)) =
       transcript s @ ModeratorEntry (fst (introduce_section c sec (world s))) # es)
     \<and> turn_count (snd (run_section c sec s)) = turn_count s
     \<and> personas (snd (run_section c sec s)) = personas s"
proof -
  obtain mp w where i: "introduce_section c sec (world s) = (mp, w)"
    by (cases "introduce_section c sec (world s)")
  let ?s1 = "s\<lparr>transcript := transcript s @ [ModeratorEntry mp], world := w\<rparr>"
  from run_rounds_extends [of c sec "max_rounds sec" mp ?s1] i show ?thesis
    by (auto simp: run_section_def)
qed


lemma run_sections_step:
  "run_section c sec s = (raised, s1) \<Longrightarrow>
     run_sections c (sec # secs) s =
       (case raised of Some e \<Rightarrow> (Some e, s1) | None \<Rightarrow> run_sections c secs s1)"
  by simp

lemma run_sections_extends:
  "(\<exists>es. transcript (snd (run_sections c secs s)) = transcript s @ es
        \<and> (fst (run_sections c secs s) = None \<longrightarrow> length secs \<le> length es))
     \<and> turn_count (snd (run_sections c secs s)) = turn_count s
     \<and> personas (snd (run_sections c secs s)) = personas s"
proof (induction secs arbitrary: s)
  case Nil
  show ?case by simp
next
  case (Cons sec secs)
  obtain raised s1 where r: "run_section c sec s = (raised, s1)"
    by (cases "run_section c sec s")
  note step = run_sections_step [OF r, of secs]
  have "snd (run_section c sec s) = s1" using r by simp
  with run_section_extends [of c sec s] obtain es0
    where s1: "transcript s1 = transcript s @ ModeratorEntry
        (fst (introduce_section c sec (world s))) # es0"
      "turn_count s1 = turn_count s" "personas s1 = personas s"
    by (elim conjE exE) simp
  show ?case
  proof (cases raised)
    case (Some e)
    with step have eq: "run_sections c (sec # secs) s = (Some e, s1)" by simp
    show ?thesis
      unfolding eq using s1 by simp
  next
    case None
    with step have eq: "run_sections c (sec # secs) s = run_sections c secs s1" by simp
    from Cons.IH [of s1] obtain es2
      where s2: "transcript (snd (run_sections c secs s1)) = transcript s1 @ es2"
        "fst (run_sections c secs s1) = None \<longrightarrow> length secs \<le> length es2"
        "turn_count (snd (run_sections c secs s1)) = turn_count s1"
        "personas (snd (run_sections c secs s1)) = personas s1"
      by (elim conjE exE)
    let ?es = "ModeratorEntry (fst (introduce_section c sec (world s))) # es0 @ es2"
    have t: "transcript (snd (run_sections c secs s1)) = transcript s @ ?es"
      using s1(1) s2(1) by simp
    have l: "fst (run_sections c secs s1) = None \<longrightarrow> length (sec # secs) \<le> length ?es"
      using s2(2) by auto
    have "\<exists>es. transcript (snd (run_sections c secs s1)) = transcript s @ es
        \<and> (fst (run_sections c secs s1) = None \<longrightarrow> length (sec # secs) \<le> length es)"
      using t l by (intro exI [of _ ?es] conjI)
    moreover have "turn_count (snd (run_sections c secs s1)) = turn_count s"
      "personas (snd (run_sections c secs s1)) = personas s"
      using s1 s2 by simp_all
    ultimately show ?thesis
      unfolding eq by (intro conjI)
  qed
qed


lemma run_session_state: "snd (run_session c guide s) = snd (run_sections c (sections guide) s)"
  by (cases "run_sections c (sections guide) s")
    (simp add: run_session_def split: option.splits)


lemma run_session_turn_count:
  "turn_count (snd (run_session c guide s)) = turn_count s"
  using run_sections_extends [of c "sections guide" s] by (simp add: run_session_state)


lemmas simulator_defs = run_session_def run_section_def run_round_def new_simulator_def
  silent_group_def talkative_group_def unavailable_generator_def no_calls_def
  warmup_guide_def two_section_guide_def




text \<open>
  C2 on the code. No run changes the simulator's \<open>turn_count\<close>, which the constructor
  sets to 0, and no appended message carries a turn number. At a concrete run, one section
  with one round and one persona who speaks, two messages are appended and \<open>turn_count\<close>
  is still 0 afterwards.
\<close>

theorem turn_count_never_advances:
  "turn_count (snd (run_session c guide s)) = turn_count s
   \<and> fst (run_session talkative_group warmup_guide (new_simulator [example_persona] no_calls)) =
       Inr [ModeratorEntry ''Warm-Up'',
            PersonaEntry ''Sarah M.'' ''persona_001'' ''I agree'' (1 / 2) (9 / 10)]
   \<and> turn_count (snd (run_session talkative_group warmup_guide
        (new_simulator [example_persona] no_calls))) = 0"
proof -
  have "fst (run_session talkative_group warmup_guide (new_simulator [example_persona] no_calls)) =
       Inr [ModeratorEntry ''Warm-Up'',
            PersonaEntry ''Sarah M.'' ''persona_001'' ''I agree'' (1 / 2) (9 / 10)]"
    by (simp add: simulator_defs example_persona_def)
  moreover
  have "turn_count (snd (run_session talkative_group warmup_guide
        (new_simulator [example_persona] no_calls))) = 0"
    by (simp add: run_session_turn_count new_simulator_def)
  ultimately show ?thesis by (simp add: run_session_turn_count)
qed

subsection \<open>A failing text generator\<close>









subsection \<open>The submission endpoint\<close>


lemma digit_unit_digit: "d < 10 \<Longrightarrow> is_decimal_digit (digit_unit d)"
  by (simp add: is_decimal_digit_def digit_unit_def)

lemma digit_not_space: "is_decimal_digit u \<Longrightarrow> \<not> is_js_space u"
  by (auto simp: is_decimal_digit_def is_js_space_def)

lemma digit_not_sign: "is_decimal_digit u \<Longrightarrow> u \<noteq> 45 \<and> u \<noteq> 43"
  by (auto simp: is_decimal_digit_def)

lemma decimal_small: "n < 10 \<Longrightarrow> decimal n = [digit_unit n]"
  by (subst decimal.simps) simp

lemma decimal_large: "\<not> n < 10 \<Longrightarrow> decimal n = decimal (n div 10) @ [digit_unit (n mod 10)]"
  by (subst decimal.simps) simp

lemma decimal_nonempty: "decimal n \<noteq> []"
  by (cases "n < 10") (simp_all add: decimal_small decimal_large)

lemma decimal_digits: "u \<in> set (decimal n) \<Longrightarrow> is_decimal_digit u"
proof (induction n rule: decimal.induct)
  case (1 n)
  show ?case
  proof (cases "n < 10")
    case True
    with "1.prems" have "u = digit_unit n" by (simp add: decimal_small)
    with True digit_unit_digit show ?thesis by simp
  next
    case False
    with "1.prems" have "u \<in> set (decimal (n div 10)) \<or> u = digit_unit (n mod 10)"
      by (auto simp: decimal_large)
    then show ?thesis
    proof
      assume "u \<in> set (decimal (n div 10))"
      with "1.IH" False show ?thesis by simp
    next
      assume "u = digit_unit (n mod 10)"
      with digit_unit_digit [of "n mod 10"] show ?thesis by simp
    qed
  qed
qed

lemma digits_value_snoc: "digits_value (ds @ [u]) = 10 * digits_value ds + (u - 48)"
  by (simp add: digits_value_def)

lemma digits_value_decimal: "digits_value (decimal n) = n"
proof (induction n rule: decimal.induct)
  case (1 n)
  show ?case
  proof (cases "n < 10")
    case True
    then show ?thesis by (simp add: decimal_small digits_value_def digit_unit_def)
  next
    case False
    from "1.IH" False have "digits_value (decimal (n div 10)) = n div 10" by simp
    then show ?thesis
      unfolding decimal_large [OF False] digits_value_snoc by (simp add: digit_unit_def)
  qed
qed

lemma parseInt10_decimal:
  assumes "n \<le> exact_limit"
  shows "parseInt10 (decimal n) = Whole (int n)"
proof -
  have ne: "decimal n \<noteq> []" by (rule decimal_nonempty)
  then obtain u us where us: "decimal n = u # us" by (cases "decimal n") auto
  then have "u \<in> set (decimal n)" by simp
  then have u: "is_decimal_digit u" by (rule decimal_digits)
  have sp: "dropWhile is_js_space (decimal n) = decimal n"
    unfolding us using digit_not_space [OF u] by simp
  have sign: "hd (decimal n) \<noteq> 45" "hd (decimal n) \<noteq> 43"
    using digit_not_sign [OF u] by (simp_all add: us)
  have tw: "takeWhile is_decimal_digit (decimal n) = decimal n"
    unfolding takeWhile_eq_all_conv using decimal_digits by blast
  show ?thesis
    unfolding parseInt10_def sp Let_def
    using sign ne assms by (simp add: digits_value_decimal tw)
qed

lemma count_increment:
  assumes "n < exact_limit"
  shows "next_count_text bt (decimal n) = decimal (Suc n)"
proof -
  from assms have "parseInt10 (decimal n) = Whole (int n)" by (simp add: parseInt10_decimal)
  moreover from assms have "int n \<noteq> int exact_limit" by simp
  ultimately show ?thesis
    by (simp add: next_count_text_def whole_text_def nat_add_distrib)
qed

lemma count_stays_at_limit:
  "next_count_text bt (decimal exact_limit) = decimal exact_limit"
  by (simp add: parseInt10_decimal next_count_text_def whole_text_def)

lemma count_from_nothing: "next_count_text bt (or_zero None) = js ''1''"
  by (simp add: next_count_text_def or_zero_def parseInt10_def js_def is_js_space_def
      is_decimal_digit_def digits_value_def exact_limit_def whole_text_def decimal_small
      digit_unit_def)

lemmas number_defs = next_count_text_def parseInt10_def js_def is_js_space_def
  is_decimal_digit_def digits_value_def exact_limit_def whole_text_def digit_unit_def

lemma decimal_examples:
  "decimal (Suc 0) = js ''1''" "decimal 41 = js ''41''" "decimal 42 = js ''42''"
  "decimal (Suc 41) = js ''42''" "decimal exact_limit = js ''9007199254740992''"
  by (simp_all add: decimal.simps digit_unit_def js_def exact_limit_def)

lemma next_count_text_examples:
  "next_count_text bt (js ''41'') = js ''42''"
  "next_count_text bt (js '' 7 items'') = js ''8''"
  "next_count_text bt (160 # js ''5'') = js ''6''"
  "next_count_text bt (js ''-3'') = js ''-2''"
  "next_count_text bt (js ''abc'') = js ''NaN''"
  "next_count_text bt (js ''9007199254740991'') = js ''9007199254740992''"
  "next_count_text bt (js ''9007199254740992'') = js ''9007199254740992''"
  "next_count_text bt (js ''9007199254740993'') = bt (js ''9007199254740993'')"
  by (simp_all add: number_defs decimal.simps)

lemmas handler_defs = onRequestPost_def kv_put_def kv_get_def

lemma map_of_update_field: "map_of (update_field k v fs) = (map_of fs)(k \<mapsto> v)"
  by (induction fs) (auto simp: fun_eq_iff)

lemma stamp_object:
  "stamp ctx (JObj fs) =
     Inr (JObj (update_field (js ''_id'') (JStr (random_uuid ctx))
                 (update_field (js ''_server_ts'') (JStr (now_iso ctx)) fs)))"
  by (simp add: stamp_def)

lemma stamp_array: "stamp ctx (JArr xs) = Inr (JArr xs)"
  by (simp add: stamp_def)

lemma stamp_primitive:
  "stamp ctx JNull = Inl (type_error_message ctx (js ''_server_ts'') JNull)"
  "stamp ctx (JBool b) = Inl (type_error_message ctx (js ''_server_ts'') (JBool b))"
  "stamp ctx (JNum n) = Inl (type_error_message ctx (js ''_server_ts'') (JNum n))"
  "stamp ctx (JStr s) = Inl (type_error_message ctx (js ''_server_ts'') (JStr s))"
  by (simp_all add: stamp_def)

lemma onRequestPost_parse_error:
  "request_json ctx = Inl msg \<Longrightarrow> onRequestPost ctx kv = (error_response ctx msg, kv)"
  by (simp add: handler_defs)

lemma onRequestPost_stamp_error:
  "request_json ctx = Inr data \<Longrightarrow> stamp ctx data = Inl msg \<Longrightarrow>
     onRequestPost ctx kv = (error_response ctx msg, kv)"
  by (auto simp: handler_defs stamp_def split: sum.splits)

lemma onRequestPost_put_record_error:
  "request_json ctx = Inr data \<Longrightarrow> stamp ctx data = Inr d \<Longrightarrow> kv_fault ctx 0 = Some msg \<Longrightarrow>
     onRequestPost ctx kv = (error_response ctx msg, kv)"
  by (auto simp: handler_defs stamp_def split: sum.splits)

lemma onRequestPost_get_error:
  "request_json ctx = Inr data \<Longrightarrow> stamp ctx data = Inr d \<Longrightarrow> kv_fault ctx 0 = None \<Longrightarrow>
   kv_fault ctx 1 = Some msg \<Longrightarrow>
     onRequestPost ctx kv =
       (error_response ctx msg, kv(js ''response:'' @ random_uuid ctx \<mapsto> JSON_stringify ctx d))"
  by (auto simp: handler_defs stamp_def split: sum.splits)

lemma onRequestPost_put_count_error:
  "request_json ctx = Inr data \<Longrightarrow> stamp ctx data = Inr d \<Longrightarrow> kv_fault ctx 0 = None \<Longrightarrow>
   kv_fault ctx 1 = None \<Longrightarrow> kv_fault ctx 2 = Some msg \<Longrightarrow>
     onRequestPost ctx kv =
       (error_response ctx msg, kv(js ''response:'' @ random_uuid ctx \<mapsto> JSON_stringify ctx d))"
  by (auto simp: handler_defs stamp_def split: sum.splits)

lemma response_key_not_count: "js ''response:'' @ u \<noteq> js ''response_count''"
  by (simp add: js_def)

lemma onRequestPost_success:
  "request_json ctx = Inr data \<Longrightarrow> stamp ctx data = Inr d \<Longrightarrow> kv_fault ctx 0 = None \<Longrightarrow>
   kv_fault ctx 1 = None \<Longrightarrow> kv_fault ctx 2 = None \<Longrightarrow>
     onRequestPost ctx kv =
       (ok_response ctx,
        kv(js ''response:'' @ random_uuid ctx \<mapsto> JSON_stringify ctx d,
           js ''response_count'' \<mapsto>
             next_count_text (beyond_text ctx) (or_zero (kv (js ''response_count'')))))"
  using response_key_not_count [of "random_uuid ctx"]
  by (auto simp: handler_defs stamp_def split: sum.splits)


lemma onRequestPost_outcomes:
  "(\<exists>msg. fst (onRequestPost ctx kv) = error_response ctx msg)
   \<or> (\<exists>data d. request_json ctx = Inr data \<and> stamp ctx data = Inr d
        \<and> kv_fault ctx 0 = None \<and> kv_fault ctx 1 = None \<and> kv_fault ctx 2 = None)"
proof (cases "request_json ctx")
  case (Inl msg)
  then show ?thesis by (auto simp: onRequestPost_parse_error)
next
  case (Inr data)
  show ?thesis
  proof (cases "stamp ctx data")
    case (Inl msg)
    with Inr show ?thesis by (auto simp: onRequestPost_stamp_error)
  next
    case d: (Inr d)
    show ?thesis
    proof (cases "kv_fault ctx 0")
      case (Some msg)
      with Inr d show ?thesis by (auto simp: onRequestPost_put_record_error)
    next
      case f0: None
      show ?thesis
      proof (cases "kv_fault ctx 1")
        case (Some msg)
        with Inr d f0 show ?thesis by (auto simp: onRequestPost_get_error)
      next
        case f1: None
        show ?thesis
        proof (cases "kv_fault ctx 2")
          case (Some msg)
          with Inr d f0 f1 show ?thesis by (auto simp: onRequestPost_put_count_error)
        next
          case None
          with Inr d f0 f1 show ?thesis by auto
        qed
      qed
    qed
  qed
qed

lemma status_error_response: "status (error_response ctx msg) = 500"
  by (simp add: error_response_def)

lemma status_ok_response: "status (ok_response ctx) = 200"
  by (simp add: ok_response_def)

text \<open>
  C10, as the code has it. The handler answers 200 or 500. It answers 200, with the body
  \<open>{ok: true, id}\<close>, only when the body parsed, both assignments went through and all three
  calls on the namespace returned; the namespace then holds the serialised data under
  \<open>response:\<close> followed by the id, and under \<open>response_count\<close> the text of
  \<open>parseInt(prior || '0', 10) + 1\<close>: the decimal of \<open>n + 1\<close> when the prior value is the
  decimal of an \<open>n\<close> below \<open>2^53\<close>, the same text again when the prior value is the decimal
  of \<open>2^53\<close> (the sum rounds back), and \<open>1\<close> when there is none. For a body that is an
  object the stored data is the object with \<open>_server_ts\<close> and \<open>_id\<close> set; for a body that
  is an array it is the array alone. Whenever a step throws (the body is not JSON, the body
  is \<open>null\<close> or a primitive, a call on the namespace fails) the answer is 500 with
  \<open>{ok: false, error}\<close>. When the record was written and one of the two later calls fails,
  the answer is 500, the record stays stored and the counter keeps its prior value.
\<close>

theorem submit_result_contract:
  "(status (fst (onRequestPost ctx kv)) = 200 \<longrightarrow>
      fst (onRequestPost ctx kv) = ok_response ctx
      \<and> (\<exists>data d.
            request_json ctx = Inr data \<and> stamp ctx data = Inr d
          \<and> snd (onRequestPost ctx kv) =
              kv(js ''response:'' @ random_uuid ctx \<mapsto> JSON_stringify ctx d,
                 js ''response_count'' \<mapsto>
                    next_count_text (beyond_text ctx) (or_zero (kv (js ''response_count''))))
          \<and> (\<forall>fs. data = JObj fs \<longrightarrow>
                (\<exists>fs'. d = JObj fs'
                   \<and> map_of fs' = (map_of fs)(js ''_server_ts'' \<mapsto> JStr (now_iso ctx),
                                              js ''_id'' \<mapsto> JStr (random_uuid ctx))))
          \<and> (\<forall>xs. data = JArr xs \<longrightarrow> d = data))
      \<and> (\<forall>n. n < exact_limit \<and> kv (js ''response_count'') = Some (decimal n) \<longrightarrow>
            snd (onRequestPost ctx kv) (js ''response_count'') = Some (decimal (Suc n)))
      \<and> (kv (js ''response_count'') = Some (decimal exact_limit) \<longrightarrow>
            snd (onRequestPost ctx kv) (js ''response_count'') = Some (decimal exact_limit))
      \<and> (kv (js ''response_count'') = None \<longrightarrow>
            snd (onRequestPost ctx kv) (js ''response_count'') = Some (js ''1'')))
   \<and> (status (fst (onRequestPost ctx kv)) \<noteq> 200 \<longrightarrow>
        (\<exists>msg. fst (onRequestPost ctx kv) = error_response ctx msg)
        \<and> status (fst (onRequestPost ctx kv)) = 500)
   \<and> ((\<exists>msg. request_json ctx = Inl msg)
        \<or> (\<exists>data msg. request_json ctx = Inr data \<and> stamp ctx data = Inl msg)
        \<or> request_json ctx = Inr JNull
        \<or> (\<exists>b. request_json ctx = Inr (JBool b))
        \<or> (\<exists>n. request_json ctx = Inr (JNum n))
        \<or> (\<exists>s. request_json ctx = Inr (JStr s))
        \<or> kv_fault ctx 0 \<noteq> None \<or> kv_fault ctx 1 \<noteq> None \<or> kv_fault ctx 2 \<noteq> None \<longrightarrow>
        status (fst (onRequestPost ctx kv)) = 500)
   \<and> (\<forall>data d. request_json ctx = Inr data \<and> stamp ctx data = Inr d \<and> kv_fault ctx 0 = None
          \<and> (kv_fault ctx 1 \<noteq> None \<or> kv_fault ctx 2 \<noteq> None) \<longrightarrow>
        status (fst (onRequestPost ctx kv)) = 500
        \<and> snd (onRequestPost ctx kv) =
             kv(js ''response:'' @ random_uuid ctx \<mapsto> JSON_stringify ctx d)
        \<and> snd (onRequestPost ctx kv) (js ''response_count'') = kv (js ''response_count''))"
  (is "?ok \<and> ?err \<and> ?throws \<and> ?torn")
proof (intro conjI)
  note out = onRequestPost_outcomes [of ctx kv]
  show ?ok
  proof
    assume s: "status (fst (onRequestPost ctx kv)) = 200"
    with out obtain data d where h: "request_json ctx = Inr data" "stamp ctx data = Inr d"
        "kv_fault ctx 0 = None" "kv_fault ctx 1 = None" "kv_fault ctx 2 = None"
      by (auto simp: status_error_response)
    note res = onRequestPost_success [OF h, of kv]
    have obj: "\<forall>fs. data = JObj fs \<longrightarrow>
                (\<exists>fs'. d = JObj fs'
                   \<and> map_of fs' = (map_of fs)(js ''_server_ts'' \<mapsto> JStr (now_iso ctx),
                                              js ''_id'' \<mapsto> JStr (random_uuid ctx)))"
      using h(2) by (auto simp: stamp_object map_of_update_field)
    have arr: "\<forall>xs. data = JArr xs \<longrightarrow> d = data"
      using h(2) by (auto simp: stamp_array)
    have cnt: "\<forall>n. n < exact_limit \<and> kv (js ''response_count'') = Some (decimal n) \<longrightarrow>
            snd (onRequestPost ctx kv) (js ''response_count'') = Some (decimal (Suc n))"
      using decimal_nonempty by (simp add: res or_zero_def count_increment)
    have lim: "kv (js ''response_count'') = Some (decimal exact_limit) \<longrightarrow>
            snd (onRequestPost ctx kv) (js ''response_count'') = Some (decimal exact_limit)"
      using decimal_nonempty by (simp add: res or_zero_def count_stays_at_limit)
    have cnt0: "kv (js ''response_count'') = None \<longrightarrow>
            snd (onRequestPost ctx kv) (js ''response_count'') = Some (js ''1'')"
      using count_from_nothing by (simp add: res)
    from h res obj arr cnt lim cnt0 show "fst (onRequestPost ctx kv) = ok_response ctx
      \<and> (\<exists>data d.
            request_json ctx = Inr data \<and> stamp ctx data = Inr d
          \<and> snd (onRequestPost ctx kv) =
              kv(js ''response:'' @ random_uuid ctx \<mapsto> JSON_stringify ctx d,
                 js ''response_count'' \<mapsto>
                    next_count_text (beyond_text ctx) (or_zero (kv (js ''response_count''))))
          \<and> (\<forall>fs. data = JObj fs \<longrightarrow>
                (\<exists>fs'. d = JObj fs'
                   \<and> map_of fs' = (map_of fs)(js ''_server_ts'' \<mapsto> JStr (now_iso ctx),
                                              js ''_id'' \<mapsto> JStr (random_uuid ctx))))
          \<and> (\<forall>xs. data = JArr xs \<longrightarrow> d = data))
      \<and> (\<forall>n. n < exact_limit \<and> kv (js ''response_count'') = Some (decimal n) \<longrightarrow>
            snd (onRequestPost ctx kv) (js ''response_count'') = Some (decimal (Suc n)))
      \<and> (kv (js ''response_count'') = Some (decimal exact_limit) \<longrightarrow>
            snd (onRequestPost ctx kv) (js ''response_count'') = Some (decimal exact_limit))
      \<and> (kv (js ''response_count'') = None \<longrightarrow>
            snd (onRequestPost ctx kv) (js ''response_count'') = Some (js ''1''))"
      by (intro conjI exI [of _ data] exI [of _ d]) simp_all
  qed
  show ?err
  proof
    assume s: "status (fst (onRequestPost ctx kv)) \<noteq> 200"
    from out show "(\<exists>msg. fst (onRequestPost ctx kv) = error_response ctx msg)
        \<and> status (fst (onRequestPost ctx kv)) = 500"
    proof
      assume "\<exists>msg. fst (onRequestPost ctx kv) = error_response ctx msg"
      then show ?thesis by (auto simp: status_error_response)
    next
      assume "\<exists>data d. request_json ctx = Inr data \<and> stamp ctx data = Inr d
        \<and> kv_fault ctx 0 = None \<and> kv_fault ctx 1 = None \<and> kv_fault ctx 2 = None"
      then obtain data d where h: "request_json ctx = Inr data" "stamp ctx data = Inr d"
        "kv_fault ctx 0 = None" "kv_fault ctx 1 = None" "kv_fault ctx 2 = None" by blast
      from onRequestPost_success [OF h, of kv] s show ?thesis
        by (simp add: status_ok_response)
    qed
  qed
  show ?throws
  proof
    assume t: "(\<exists>msg. request_json ctx = Inl msg)
        \<or> (\<exists>data msg. request_json ctx = Inr data \<and> stamp ctx data = Inl msg)
        \<or> request_json ctx = Inr JNull
        \<or> (\<exists>b. request_json ctx = Inr (JBool b))
        \<or> (\<exists>n. request_json ctx = Inr (JNum n))
        \<or> (\<exists>s. request_json ctx = Inr (JStr s))
        \<or> kv_fault ctx 0 \<noteq> None \<or> kv_fault ctx 1 \<noteq> None \<or> kv_fault ctx 2 \<noteq> None"
    from out show "status (fst (onRequestPost ctx kv)) = 500"
    proof
      assume "\<exists>msg. fst (onRequestPost ctx kv) = error_response ctx msg"
      then show ?thesis by (auto simp: status_error_response)
    next
      assume "\<exists>data d. request_json ctx = Inr data \<and> stamp ctx data = Inr d
        \<and> kv_fault ctx 0 = None \<and> kv_fault ctx 1 = None \<and> kv_fault ctx 2 = None"
      with t show ?thesis by (auto simp: stamp_primitive)
    qed
  qed
  show ?torn
  proof (intro allI impI)
    fix data d
    assume a: "request_json ctx = Inr data \<and> stamp ctx data = Inr d \<and> kv_fault ctx 0 = None
          \<and> (kv_fault ctx 1 \<noteq> None \<or> kv_fault ctx 2 \<noteq> None)"
    have "\<exists>msg. onRequestPost ctx kv =
       (error_response ctx msg, kv(js ''response:'' @ random_uuid ctx \<mapsto> JSON_stringify ctx d))"
    proof (cases "kv_fault ctx 1")
      case (Some msg)
      with a onRequestPost_get_error [of ctx data d msg kv] show ?thesis by blast
    next
      case None
      with a obtain msg where "kv_fault ctx 2 = Some msg" by auto
      with a None onRequestPost_put_count_error [of ctx data d msg kv] show ?thesis by blast
    qed
    then show "status (fst (onRequestPost ctx kv)) = 500
        \<and> snd (onRequestPost ctx kv) =
             kv(js ''response:'' @ random_uuid ctx \<mapsto> JSON_stringify ctx d)
        \<and> snd (onRequestPost ctx kv) (js ''response_count'') = kv (js ''response_count'')"
      using response_key_not_count [of "random_uuid ctx"]
      by (auto simp: status_error_response)
  qed
qed


lemmas run_defs = onRequestPost_def kv_put_def kv_get_def example_context_def
  failing_get_context_def array_context_def ok_response_def error_response_def or_zero_def
  quoted_def

theorem submit_result_contract_witness:
  "status (fst (onRequestPost example_context [js ''response_count'' \<mapsto> js ''41''])) = 200
   \<and> fst (onRequestPost example_context [js ''response_count'' \<mapsto> js ''41'']) =
       ok_response example_context
   \<and> snd (onRequestPost example_context [js ''response_count'' \<mapsto> js ''41''])
         (js ''response:u-1'') =
       Some (render_json (JObj [(js ''q1'', JNum 4),
          (js ''_server_ts'', JStr (js ''2025-01-01T00:00:00.000Z'')),
          (js ''_id'', JStr (js ''u-1''))]))
   \<and> (41::nat) < exact_limit
   \<and> snd (onRequestPost example_context [js ''response_count'' \<mapsto> js ''41''])
         (js ''response_count'') = Some (js ''42'')
   \<and> snd (onRequestPost example_context [js ''response_count'' \<mapsto> js ''9007199254740992''])
         (js ''response_count'') = Some (js ''9007199254740992'')
   \<and> kv_fault failing_get_context 0 = None
   \<and> kv_fault failing_get_context 1 = Some (js ''KV GET failed'')
   \<and> status (fst (onRequestPost failing_get_context [js ''response_count'' \<mapsto> js ''41''])) = 500
   \<and> snd (onRequestPost failing_get_context [js ''response_count'' \<mapsto> js ''41'']) =
       [js ''response_count'' \<mapsto> js ''41'',
        js ''response:u-1'' \<mapsto> render_json (JObj [(js ''q1'', JNum 4),
          (js ''_server_ts'', JStr (js ''2025-01-01T00:00:00.000Z'')),
          (js ''_id'', JStr (js ''u-1''))])]
   \<and> snd (onRequestPost failing_get_context [js ''response_count'' \<mapsto> js ''41''])
         (js ''response_count'') = Some (js ''41'')"
proof -
  let ?kv = "[js ''response_count'' \<mapsto> js ''41'']"
  let ?top = "[js ''response_count'' \<mapsto> js ''9007199254740992'']"
  let ?d = "JObj [(js ''q1'', JNum 4),
          (js ''_server_ts'', JStr (js ''2025-01-01T00:00:00.000Z'')),
          (js ''_id'', JStr (js ''u-1''))]"
  have ok: "status (fst (onRequestPost example_context ?kv)) = 200"
    by (simp add: run_defs)
  have ok_top: "status (fst (onRequestPost example_context ?top)) = 200"
    by (simp add: run_defs)
  have stored:
    "snd (onRequestPost example_context ?kv) (js ''response:u-1'') = Some (render_json ?d)"
    by (simp add: run_defs js_def)
  have small: "(41::nat) < exact_limit"
    by (simp add: exact_limit_def)
  have prior: "(41::nat) < exact_limit \<and> ?kv (js ''response_count'') = Some (decimal 41)"
    by (simp add: exact_limit_def decimal_examples)
  have prior_top: "?top (js ''response_count'') = Some (decimal exact_limit)"
    by (simp add: decimal_examples)
  have faults: "kv_fault failing_get_context 0 = None"
      "kv_fault failing_get_context 1 = Some (js ''KV GET failed'')"
    by (simp_all add: example_context_def failing_get_context_def)
  have pre: "request_json failing_get_context = Inr (JObj [(js ''q1'', JNum 4)])
      \<and> stamp failing_get_context (JObj [(js ''q1'', JNum 4)]) = Inr ?d
      \<and> kv_fault failing_get_context 0 = None
      \<and> (kv_fault failing_get_context 1 \<noteq> None \<or> kv_fault failing_get_context 2 \<noteq> None)"
    by (simp add: stamp_def example_context_def failing_get_context_def js_def)
  have ser: "JSON_stringify failing_get_context = render_json"
      "random_uuid failing_get_context = js ''u-1''"
    by (simp_all add: example_context_def failing_get_context_def)
  have key: "js ''response:'' @ js ''u-1'' = js ''response:u-1''"
    by (simp add: js_def)
  note answered = submit_result_contract [of example_context ?kv,
      THEN conjunct1, THEN mp, OF ok]
  note resp = answered [THEN conjunct1]
  note count = answered [THEN conjunct2, THEN conjunct2, THEN conjunct1, THEN spec, THEN mp,
      OF prior, unfolded decimal_examples]
  note top = submit_result_contract [of example_context ?top,
      THEN conjunct1, THEN mp, OF ok_top, THEN conjunct2, THEN conjunct2, THEN conjunct2,
      THEN conjunct1, THEN mp, OF prior_top, unfolded decimal_examples]
  note torn = submit_result_contract [of failing_get_context ?kv,
      THEN conjunct2, THEN conjunct2, THEN conjunct2, THEN spec, THEN spec, THEN mp, OF pre,
      unfolded ser key]
  from torn have half: "status (fst (onRequestPost failing_get_context ?kv)) = 500"
      "snd (onRequestPost failing_get_context ?kv) =
         ?kv(js ''response:u-1'' \<mapsto> render_json ?d)"
      "snd (onRequestPost failing_get_context ?kv) (js ''response_count'') =
         ?kv (js ''response_count'')"
    by (rule conjunct1, rule conjunct2 [THEN conjunct1], rule conjunct2 [THEN conjunct2])
  from half(3) have unchanged:
      "snd (onRequestPost failing_get_context ?kv) (js ''response_count'') = Some (js ''41'')"
    by simp
  from ok resp stored small count top faults half(1,2) unchanged show ?thesis
    by (intro conjI)
qed

text \<open>
  C10 as stated fails for a body that is a JSON array: the handler answers 200 and
  increments the counter, but the text stored under the response key is the bare array,
  without \<open>_server_ts\<close> and \<open>_id\<close>.
\<close>

theorem array_body_counterexample:
  "status (fst (onRequestPost array_context Map.empty)) = 200
   \<and> snd (onRequestPost array_context Map.empty) (js ''response:u-1'') = Some (js ''[]'')
   \<and> snd (onRequestPost array_context Map.empty) (js ''response_count'') = Some (js ''1'')"
  by (simp add: run_defs number_defs decimal.simps)

subsection \<open>Speaking decision\<close>

text \<open>
  C8. A participant who is directly addressed speaks whatever the draw. The base
  probability is 0.85 for extraversion from 70, 0.60 from 30 to below 70, 0.35 below 30.
  A participant who is not addressed speaks exactly when the draw is below the adjusted
  probability, which is the base probability when neither the divergence bonus nor the
  recency penalty applies.
\<close>

theorem should_speak_decision:
  "(directly_addressed sit \<longrightarrow> shouldSpeak e sit draw)
   \<and> (70 \<le> e \<longrightarrow> base_speak_probability e = 85 / 100)
   \<and> (30 \<le> e \<and> e < 70 \<longrightarrow> base_speak_probability e = 60 / 100)
   \<and> (e < 30 \<longrightarrow> base_speak_probability e = 35 / 100)
   \<and> (\<not> directly_addressed sit \<and> \<not> diverges_from_group sit \<and> \<not> spoke_last_round sit \<longrightarrow>
        speak_probability e sit = base_speak_probability e
        \<and> shouldSpeak e sit draw = (draw < base_speak_probability e))
   \<and> (\<not> directly_addressed sit \<longrightarrow> shouldSpeak e sit draw = (draw < speak_probability e sit))"
  by (simp add: shouldSpeak_def speak_probability_def base_speak_probability_def)

theorem should_speak_decision_witness:
  "shouldSpeak 10 (plain_situation\<lparr>directly_addressed := True\<rparr>) (99 / 100)
   \<and> base_speak_probability 90 = 85 / 100
   \<and> base_speak_probability 50 = 60 / 100
   \<and> base_speak_probability 10 = 35 / 100
   \<and> \<not> directly_addressed plain_situation
   \<and> shouldSpeak 90 plain_situation (84 / 100)
   \<and> \<not> shouldSpeak 90 plain_situation (85 / 100)"
  using should_speak_decision [of "plain_situation\<lparr>directly_addressed := True\<rparr>" 10 "99 / 100"]
    should_speak_decision [of plain_situation 90 "84 / 100"]
    should_speak_decision [of plain_situation 50 "85 / 100"]
    should_speak_decision [of plain_situation 10 "85 / 100"]
    should_speak_decision [of plain_situation 90 "85 / 100"]
  by (simp add: plain_situation_def)

subsection \<open>Influence and opinion leader\<close>

lemma max_influence_None: "max_influence g ps = None \<longleftrightarrow> ps = []"
  by (cases ps) (auto split: option.splits)

lemma max_influence_Some:
  "max_influence g ps = Some p \<Longrightarrow>
     p \<in> set ps \<and> (\<forall>q \<in> set ps. calculate_influence q g \<le> calculate_influence p g)"
proof (induction ps arbitrary: p)
  case Nil
  then show ?case by simp
next
  case (Cons a ps)
  show ?case
  proof (cases "max_influence g ps")
    case None
    then have "ps = []" by (simp add: max_influence_None)
    with Cons.prems show ?thesis by simp
  next
    case (Some q)
    from Cons.IH [OF Some] have q: "q \<in> set ps"
      "\<forall>r \<in> set ps. calculate_influence r g \<le> calculate_influence q g" by simp_all
    show ?thesis
    proof (cases "calculate_influence q g \<le> calculate_influence a g")
      case True
      with Some Cons.prems have "p = a" by simp
      with True q show ?thesis by fastforce
    next
      case False
      with Some Cons.prems have "p = q" by simp
      with False q show ?thesis by fastforce
    qed
  qed
qed

lemma persona_id_as_of_now: "persona_id (as_of_now ps pn) = persona_id (fst pn)"
  by (simp add: as_of_now_def)

lemma chosen_leader_leads:
  assumes "opinionLeaderId g = choose_leader (participants g)"
  shows "leads_the_spoken g"
proof (cases "max_influence (participants g)
    (map (as_of_now (participants g)) (filter has_spoken (participants g)))")
  case None
  then have "filter has_spoken (participants g) = []"
    by (simp add: max_influence_None)
  then have "\<forall>pn \<in> set (participants g). \<not> has_spoken pn"
    by (simp add: filter_empty_conv)
  moreover from None assms have "opinionLeaderId g = None"
    by (simp add: choose_leader_def)
  ultimately show ?thesis by (simp add: leads_the_spoken_def)
next
  case (Some l)
  from max_influence_Some [OF Some]
  have mem: "l \<in> set (map (as_of_now (participants g)) (filter has_spoken (participants g)))"
    and top: "\<forall>q \<in> set (map (as_of_now (participants g)) (filter has_spoken (participants g))).
      calculate_influence q (participants g) \<le> calculate_influence l (participants g)"
    by simp_all
  from mem obtain pn where pn: "pn \<in> set (participants g)" "has_spoken pn"
      "l = as_of_now (participants g) pn"
    by auto
  have "\<forall>qm \<in> set (participants g). has_spoken qm \<longrightarrow>
      influence_now g qm \<le> influence_now g pn"
  proof (intro ballI impI)
    fix qm
    assume "qm \<in> set (participants g)" "has_spoken qm"
    then have "as_of_now (participants g) qm
        \<in> set (map (as_of_now (participants g)) (filter has_spoken (participants g)))"
      by simp
    with top have "calculate_influence (as_of_now (participants g) qm) (participants g)
        \<le> calculate_influence l (participants g)"
      by (rule bspec)
    with pn(3) show "influence_now g qm \<le> influence_now g pn"
      by (simp add: influence_now_def calculate_influence_def)
  qed
  moreover from Some assms pn(3) have "opinionLeaderId g = Some (persona_id (fst pn))"
    by (simp add: choose_leader_def persona_id_as_of_now)
  ultimately show ?thesis
    using pn(1,2) by (auto simp: leads_the_spoken_def)
qed

lemma group_state_after_snoc:
  "group_state_after ps (speakers @ [x]) = after_turn (group_state_after ps speakers) x"
  by (simp add: group_state_after_def)

lemma leader_after_turn:
  "opinionLeaderId (after_turn g x) = choose_leader (participants (after_turn g x))"
  by (simp add: after_turn_def Let_def)

lemma participants_after:
  "participants (group_state_after ps speakers) =
     map (\<lambda>p. (p, count_list speakers (persona_id p))) ps"
proof (induction speakers rule: rev_induct)
  case Nil
  show ?case by (simp add: group_state_after_def initial_group_state_def)
next
  case (snoc x xs)
  then show ?case
    by (simp add: group_state_after_snoc after_turn_def Let_def)
qed

lemma leads_after: "leads_the_spoken (group_state_after ps speakers)"
proof (cases speakers rule: rev_cases)
  case Nil
  then show ?thesis
    by (simp add: group_state_after_def initial_group_state_def leads_the_spoken_def
        has_spoken_def)
next
  case (snoc xs x)
  then show ?thesis
    by (simp add: group_state_after_snoc chosen_leader_leads leader_after_turn)
qed

lemma no_leader_iff:
  assumes "set speakers \<subseteq> persona_id ` set ps"
  shows "opinionLeaderId (group_state_after ps speakers) = None \<longleftrightarrow> speakers = []"
proof
  assume none: "opinionLeaderId (group_state_after ps speakers) = None"
  show "speakers = []"
  proof (rule ccontr)
    assume "speakers \<noteq> []"
    then obtain x where x: "x \<in> set speakers" by (cases speakers) auto
    with assms obtain p where p: "p \<in> set ps" "persona_id p = x" by auto
    from x p have "count_list speakers (persona_id p) \<noteq> 0"
      by (simp add: count_list_0_iff)
    then have "0 < count_list speakers (persona_id p)" by simp
    with p(1) have "(p, count_list speakers (persona_id p))
        \<in> set (participants (group_state_after ps speakers))"
      "has_spoken (p, count_list speakers (persona_id p))"
      by (simp_all add: participants_after has_spoken_def)
    moreover from leads_after [of ps speakers] none
    have "\<forall>pn \<in> set (participants (group_state_after ps speakers)). \<not> has_spoken pn"
      by (simp add: leads_the_spoken_def)
    ultimately show False by blast
  qed
next
  assume "speakers = []"
  then show "opinionLeaderId (group_state_after ps speakers) = None"
    by (simp add: group_state_after_def initial_group_state_def)
qed

text \<open>
  C7. The influence is 0.4 times extraversion plus 0.4 times perceived expertise plus 0.2
  times the speak-count ratio. After any sequence of turns every participant's speak count
  is the number of turns it has taken, and the leader recorded in the group state is a
  participant who has spoken and whose influence, with every participant's speak-count
  ratio as it is at that point, is maximal among those who have spoken. When every
  speaker is a participant, there is no leader exactly when nobody has spoken.
\<close>

theorem influence_and_opinion_leader:
  "calculate_influence p g =
     4 / 10 * extraversion p + 4 / 10 * perceived_expertise p + 2 / 10 * speak_count_ratio p
   \<and> participants (group_state_after ps speakers) =
       map (\<lambda>p. (p, count_list speakers (persona_id p))) ps
   \<and> leads_the_spoken (group_state_after ps speakers)
   \<and> (set speakers \<subseteq> persona_id ` set ps \<longrightarrow>
        (opinionLeaderId (group_state_after ps speakers) = None \<longleftrightarrow> speakers = []))"
proof (intro conjI impI)
  show "calculate_influence p g =
     4 / 10 * extraversion p + 4 / 10 * perceived_expertise p + 2 / 10 * speak_count_ratio p"
    by (simp add: calculate_influence_def)
  show "participants (group_state_after ps speakers) =
       map (\<lambda>p. (p, count_list speakers (persona_id p))) ps"
    by (rule participants_after)
  show "leads_the_spoken (group_state_after ps speakers)"
    by (rule leads_after)
next
  assume "set speakers \<subseteq> persona_id ` set ps"
  then show "opinionLeaderId (group_state_after ps speakers) = None \<longleftrightarrow> speakers = []"
    by (rule no_leader_iff)
qed

lemmas leader_defs = group_state_after_def after_turn_def initial_group_state_def
  choose_leader_def as_of_now_def total_turns_def has_spoken_def calculate_influence_def
  example_persona_def quiet_expert_def

theorem influence_and_opinion_leader_witness:
  "set [''persona_001'', ''persona_002'', ''persona_002'', ''persona_002'']
      \<subseteq> persona_id ` set [example_persona, quiet_expert]
   \<and> calculate_influence quiet_expert () = 9 / 25
   \<and> opinionLeaderId (group_state_after [example_persona, quiet_expert] []) = None
   \<and> opinionLeaderId (group_state_after [example_persona, quiet_expert]
        [''persona_001'', ''persona_002'']) = Some ''persona_001''
   \<and> opinionLeaderId (group_state_after [example_persona, quiet_expert]
        [''persona_001'', ''persona_002'', ''persona_002'', ''persona_002'']) = Some ''persona_002''
   \<and> map snd (participants (group_state_after [example_persona, quiet_expert]
        [''persona_001'', ''persona_002'', ''persona_002'', ''persona_002''])) = [1, 3]
   \<and> leads_the_spoken (group_state_after [example_persona, quiet_expert]
        [''persona_001'', ''persona_002'', ''persona_002'', ''persona_002''])"
proof -
  let ?ps = "[example_persona, quiet_expert]"
  let ?run = "[''persona_001'', ''persona_002'', ''persona_002'', ''persona_002'']"
  have sub: "set ?run \<subseteq> persona_id ` set ?ps"
    by (simp add: example_persona_def quiet_expert_def)
  note inst = influence_and_opinion_leader [of quiet_expert "()" ?ps ?run]
  note leads = inst [THEN conjunct2, THEN conjunct2, THEN conjunct1]
  have infl: "calculate_influence quiet_expert () = 9 / 25"
    by (simp add: calculate_influence_def quiet_expert_def)
  have l0: "opinionLeaderId (group_state_after ?ps []) = None"
    by (simp add: leader_defs)
  have l2: "opinionLeaderId (group_state_after ?ps [''persona_001'', ''persona_002''])
      = Some ''persona_001''"
    by (simp add: leader_defs)
  have l4: "opinionLeaderId (group_state_after ?ps ?run) = Some ''persona_002''"
    by (simp add: leader_defs)
  have counts: "map snd (participants (group_state_after ?ps ?run)) = [1, 3]"
    by (simp add: leader_defs)
  from sub infl l0 l2 l4 counts leads show ?thesis by (intro conjI)
qed

end
